theory Spec2Isabelle
  imports Complex_Main "HOL-Library.Signed_Division"
begin

section \<open>Plan13 orbit prediction (AioP13): a shallow embedding\<close>

text \<open>
  The C++ type \<open>double\<close> is modelled by \<^typ>\<open>real\<close>: every result below is a statement
  about the algorithms in exact real arithmetic, without rounding, infinities or NaN.
  Where C would divide by zero or leave the domain of \<open>asin\<close>, \<open>acos\<close> or \<open>sqrt\<close>, the
  theorems carry a hypothesis that excludes the argument. The integer types \<open>int\<close> and
  \<open>long\<close> are modelled by \<^typ>\<open>int\<close>, without overflow: the day-numbers, dates and
  revolution counts of the theorems fit the 16 bit \<open>int\<close> and the 32 bit \<open>long\<close> of the
  smallest target.
\<close>

subsection \<open>Library functions of C and Arduino\<close>

text \<open>The cast \<open>(long)x\<close> or \<open>(int)x\<close> of a double: truncation toward zero.\<close>

definition trunc_cast :: "real \<Rightarrow> int" where
  "trunc_cast x = (if 0 \<le> x then \<lfloor>x\<rfloor> else \<lceil>x\<rceil>)"

text \<open>\<open>fmod(x, y)\<close>: the remainder of the division truncated toward zero.\<close>

definition fmod :: "real \<Rightarrow> real \<Rightarrow> real" where
  "fmod x y = x - real_of_int (trunc_cast (x / y)) * y"

text \<open>The Arduino macros \<open>radians(deg)\<close> and \<open>degrees(rad)\<close>.\<close>

definition radians :: "real \<Rightarrow> real" where
  "radians deg = deg * (pi / 180)"

definition degrees :: "real \<Rightarrow> real" where
  "degrees rad = rad * (180 / pi)"

text \<open>\<open>atan2(y, x)\<close> by quadrants, with values in \<open>(-pi, pi]\<close>.\<close>

definition atan2 :: "real \<Rightarrow> real \<Rightarrow> real" where
  "atan2 y x =
     (if 0 < x then arctan (y / x)
      else if x < 0 then (if 0 \<le> y then arctan (y / x) + pi else arctan (y / x) - pi)
      else if 0 < y then pi / 2
      else if y < 0 then - (pi / 2)
      else 0)"

subsection \<open>Constants of AioP13.h\<close>

definition g_scdRE :: real where "g_scdRE = 6378.137"
definition g_scdGM :: real where "g_scdGM = 398600"
definition g_scdJ2 :: real where "g_scdJ2 = 1.08263 / 1000"
definition g_scdYM :: real where "g_scdYM = 365.25"
definition g_scdYT :: real where "g_scdYT = 365.2421896698"
definition g_scdWW :: real where "g_scdWW = 2 * pi / g_scdYT"
definition g_scdWE :: real where "g_scdWE = 2 * pi + g_scdWW"
definition g_scdYG :: real where "g_scdYG = 2014"
definition g_scdG0 :: real where "g_scdG0 = 99.5828"
definition g_scdMAS0 :: real where "g_scdMAS0 = 356.4105"
definition g_scdMASD :: real where "g_scdMASD = 0.98560028"
definition g_scdINS :: real where "g_scdINS = radians 23.4375"
definition g_scdCNS :: real where "g_scdCNS = cos g_scdINS"
definition g_scdSNS :: real where "g_scdSNS = sin g_scdINS"
definition g_scdEQC1 :: real where "g_scdEQC1 = 0.03340"
definition g_scdEQC2 :: real where "g_scdEQC2 = 0.00035"

type_synonym Vec3 = "real \<times> real \<times> real"

subsection \<open>Helper functions\<close>

text \<open>\<open>fnday\<close>: convert date to day-number.\<close>

definition fnday :: "int \<Rightarrow> int \<Rightarrow> int \<Rightarrow> int" where
  "fnday p_iy p_im p_id =
     (let (im, iy) = (if p_im < 3 then (p_im + 12, p_iy - 1) else (p_im, p_iy))
      in trunc_cast (real_of_int iy * g_scdYM)
         + trunc_cast (real_of_int (im + 1) * 30.6)
         + (p_id - 428))"

text \<open>\<open>fndate\<close>: convert day-number to date \<open>(year, month, day)\<close>.\<close>

definition fndate :: "int \<Rightarrow> int \<times> int \<times> int" where
  "fndate p_idt =
     (let idt1 = p_idt + 428;
          iy = trunc_cast ((real_of_int idt1 - 122.1) / g_scdYM);
          idt2 = idt1 - trunc_cast (real_of_int iy * g_scdYM);
          im = trunc_cast (real_of_int idt2 / 30.61);
          idt3 = idt2 - trunc_cast (real_of_int im * 30.6);
          im1 = im - 1
      in if im1 > 12 then (iy + 1, im1 - 12, idt3) else (iy, im1, idt3))"

text \<open>\<open>latlon2xy\<close>: latitude and longitude in degrees to the pixel \<open>(x, y)\<close> of a map.\<close>

definition latlon2xy :: "real \<Rightarrow> real \<Rightarrow> int \<Rightarrow> int \<Rightarrow> int \<times> int" where
  "latlon2xy p_dlat p_dlon p_ciMapMaxX p_ciMapMaxY =
     (trunc_cast (((180 + p_dlon) / 360) * real_of_int p_ciMapMaxX),
      trunc_cast (((90 - p_dlat) / 180) * real_of_int p_ciMapMaxY))"

subsection \<open>Class P13DateTime\<close>

record P13DateTime =
  c_lDN :: int
  c_dTN :: real

definition add :: "P13DateTime \<Rightarrow> real \<Rightarrow> P13DateTime" where
  "add dt p_ddays =
     (let tn1 = c_dTN dt + p_ddays;
          dn1 = c_lDN dt + trunc_cast tn1;
          tn2 = tn1 - real_of_int (trunc_cast tn1)
      in \<lparr>c_lDN = dn1, c_dTN = tn2\<rparr>)"

definition settime :: "int \<Rightarrow> int \<Rightarrow> int \<Rightarrow> int \<Rightarrow> int \<Rightarrow> int \<Rightarrow> P13DateTime" where
  "settime p_iyear p_imonth p_iday p_ih p_im p_is =
     \<lparr>c_lDN = fnday p_iyear p_imonth p_iday,
      c_dTN = (real_of_int p_ih + real_of_int p_im / 60 + real_of_int p_is / 3600) / 24\<rparr>"

definition gettime :: "P13DateTime \<Rightarrow> int \<times> int \<times> int \<times> int \<times> int \<times> int" where
  "gettime dt =
     (let (iyear, imonth, iday) = fndate (c_lDN dt);
          t1 = c_dTN dt * 24;
          ih = trunc_cast t1;
          t2 = (t1 - real_of_int ih) * 60;
          im = trunc_cast t2;
          t3 = (t2 - real_of_int im) * 60;
          is = trunc_cast t3
      in (iyear, imonth, iday, ih, im, is))"

definition roundup :: "P13DateTime \<Rightarrow> real \<Rightarrow> P13DateTime" where
  "roundup dt p_dtime =
     (let l_dinc = p_dtime - fmod (c_dTN dt) p_dtime;
          tn1 = c_dTN dt + l_dinc;
          dn1 = c_lDN dt + trunc_cast tn1;
          tn2 = tn1 - real_of_int (trunc_cast tn1)
      in \<lparr>c_lDN = dn1, c_dTN = tn2\<rparr>)"


subsection \<open>Class P13Observer\<close>



subsection \<open>Class P13Satellite\<close>

record P13Satellite =
  c_ccSatName :: string
  c_vecSAT :: Vec3
  c_vecVEL :: Vec3
  c_vecS :: Vec3
  c_vecV :: Vec3
  cp_lN :: int
  cp_lYE :: int
  cp_dTE :: real
  cp_dIN :: real
  cp_dRA :: real
  cp_dEC :: real
  cp_dWP :: real
  cp_dMA :: real
  cp_dMM :: real
  cp_dM2 :: real
  cp_dRV :: real
  cp_lDE :: int
  cp_dN0 :: real
  cp_dA_0 :: real
  cp_dB_0 :: real
  cp_dPC :: real
  cp_dQD :: real
  cp_dWD :: real
  cp_dDC :: real
  cp_dRS :: real
  cp_dRR :: real

text \<open>
  \<open>tle\<close>: the element set of a satellite. The numbers cut out of the two lines by
  \<open>getlong\<close> and \<open>getdouble\<close> are the parameters, in the order of the calls: catalog
  number, two-digit epoch year, epoch day, decay rate, inclination, R.A.A.N.,
  eccentricity digits, argument of perigee, mean anomaly, mean motion and revolution
  number. The fields that \<open>tle\<close> does not assign keep the value they have in \<open>sat\<close>.
\<close>

definition tle ::
  "P13Satellite \<Rightarrow> string \<Rightarrow> int \<Rightarrow> int \<Rightarrow> real \<Rightarrow> real \<Rightarrow> real \<Rightarrow> real \<Rightarrow> real \<Rightarrow> real \<Rightarrow> real \<Rightarrow> real
     \<Rightarrow> int \<Rightarrow> P13Satellite" where
  "tle sat p_ccnm l_N l_YE l_TE l_M2 l_IN l_RA l_EC l_WP l_MA l_MM l_RV =
     (let YE = (if l_YE < 58 then l_YE + 2000 else l_YE + 1900);
          M2 = 2 * pi * l_M2;
          IN = radians l_IN;
          RA = radians l_RA;
          EC = l_EC / 10000000;
          WP = radians l_WP;
          MA = radians l_MA;
          MM = 2 * pi * l_MM;
          RV = real_of_int l_RV;
          DE = fnday YE 1 0 + trunc_cast l_TE;
          TE = l_TE - real_of_int (trunc_cast l_TE);
          N0 = MM / 86400;
          A_0 = (g_scdGM / (N0 * N0)) powr (1 / 3);
          B_0 = A_0 * sqrt (1 - EC * EC);
          PC0 = g_scdRE * A_0 / (B_0 * B_0);
          PC = 1.5 * g_scdJ2 * PC0 * PC0 * MM;
          l_dCI = cos IN;
          QD = - PC * l_dCI;
          WD = PC * (5 * l_dCI * l_dCI - 1) / 2;
          DC = - 2 * M2 / (3 * MM)
      in sat\<lparr>c_ccSatName := p_ccnm, cp_lN := l_N, cp_lYE := YE, cp_dTE := TE, cp_dM2 := M2,
            cp_dIN := IN, cp_dRA := RA, cp_dEC := EC, cp_dWP := WP, cp_dMA := MA, cp_dMM := MM,
            cp_dRV := RV, cp_lDE := DE, cp_dN0 := N0, cp_dA_0 := A_0, cp_dB_0 := B_0,
            cp_dPC := PC, cp_dQD := QD, cp_dWD := WD, cp_dDC := DC\<rparr>)"

text \<open>An object in zero-filled storage, as a global has it before its constructor runs.\<close>

definition zero_satellite :: P13Satellite where
  "zero_satellite =
     \<lparr>c_ccSatName = [], c_vecSAT = (0, 0, 0), c_vecVEL = (0, 0, 0), c_vecS = (0, 0, 0),
      c_vecV = (0, 0, 0), cp_lN = 0, cp_lYE = 0, cp_dTE = 0, cp_dIN = 0, cp_dRA = 0, cp_dEC = 0,
      cp_dWP = 0, cp_dMA = 0, cp_dMM = 0, cp_dM2 = 0, cp_dRV = 0, cp_lDE = 0, cp_dN0 = 0,
      cp_dA_0 = 0, cp_dB_0 = 0, cp_dPC = 0, cp_dQD = 0, cp_dWD = 0, cp_dDC = 0, cp_dRS = 0,
      cp_dRR = 0\<rparr>"

text \<open>
  The first part of \<open>predict\<close>: elapsed time \<open>l_dT\<close> since the epoch and the linear drag
  term \<open>l_dDT\<close>.
\<close>

definition elapsed_T :: "P13Satellite \<Rightarrow> P13DateTime \<Rightarrow> real" where
  "elapsed_T sat p_dt = real_of_int (c_lDN p_dt - cp_lDE sat) + (c_dTN p_dt - cp_dTE sat)"

definition drag_DT :: "P13Satellite \<Rightarrow> P13DateTime \<Rightarrow> real" where
  "drag_DT sat p_dt = cp_dDC sat * elapsed_T sat p_dt / 2"

text \<open>
  The mean anomaly at the time of \<open>p_dt\<close> before the whole revolutions are stripped,
  the number \<open>l_dDR\<close> of whole revolutions, the mean anomaly \<open>l_dM\<close> after they are
  stripped, and the current orbit number \<open>l_dRN\<close>.
\<close>

definition mean_anomaly_raw :: "P13Satellite \<Rightarrow> P13DateTime \<Rightarrow> real" where
  "mean_anomaly_raw sat p_dt =
     cp_dMA sat + cp_dMM sat * elapsed_T sat p_dt * (1 - 3 * drag_DT sat p_dt)"

definition whole_revs_DR :: "P13Satellite \<Rightarrow> P13DateTime \<Rightarrow> real" where
  "whole_revs_DR sat p_dt = real_of_int (trunc_cast (mean_anomaly_raw sat p_dt / (2 * pi)))"

definition mean_anomaly_M :: "P13Satellite \<Rightarrow> P13DateTime \<Rightarrow> real" where
  "mean_anomaly_M sat p_dt = mean_anomaly_raw sat p_dt - whole_revs_DR sat p_dt * 2 * pi"

definition orbit_number_RN :: "P13Satellite \<Rightarrow> P13DateTime \<Rightarrow> real" where
  "orbit_number_RN sat p_dt = cp_dRV sat + whole_revs_DR sat p_dt"

text \<open>
  One pass through the body of the do-while loop of \<open>predict\<close>: from the current
  \<open>l_dEA\<close> to \<open>(l_dC_EA, l_dS_EA, l_dDNOM, l_dD)\<close>.
\<close>

definition kepler_body :: "real \<Rightarrow> real \<Rightarrow> real \<Rightarrow> real \<times> real \<times> real \<times> real" where
  "kepler_body EC M EA =
     (let l_dC_EA = cos EA;
          l_dS_EA = sin EA;
          l_dDNOM = 1 - EC * l_dC_EA;
          l_dD = (EA - EC * l_dS_EA - M) / l_dDNOM
      in (l_dC_EA, l_dS_EA, l_dDNOM, l_dD))"

text \<open>
  The do-while loop: Newton's method for \<open>M = EA - EC * sin EA\<close>. The loop has no bound
  on the number of passes, so the result is \<open>None\<close> where it does not return, and
  otherwise the values of \<open>(l_dEA, l_dC_EA, l_dS_EA, l_dDNOM)\<close> after the loop.
\<close>

partial_function (option) kepler_loop ::
  "real \<Rightarrow> real \<Rightarrow> real \<Rightarrow> (real \<times> real \<times> real \<times> real) option" where
  "kepler_loop EC M EA =
     (case kepler_body EC M EA of
        (l_dC_EA, l_dS_EA, l_dDNOM, l_dD) \<Rightarrow>
          if \<bar>l_dD\<bar> > 1 / 100000 then kepler_loop EC M (EA - l_dD)
          else Some (EA - l_dD, l_dC_EA, l_dS_EA, l_dDNOM))"



text \<open>\<open>latlon\<close>: the sub-satellite point \<open>(p_dlat, p_dlon)\<close> in degrees.\<close>

definition latlon :: "P13Satellite \<Rightarrow> real \<times> real" where
  "latlon sat =
     (case c_vecS sat of (S0, S1, S2) \<Rightarrow>
        (degrees (arcsin (S2 / cp_dRS sat)), degrees (atan2 S1 S0)))"










text \<open>\<open>doppler\<close>: the RX (\<open>p_bodir\<close> false) or TX (\<open>p_bodir\<close> true) frequency with Doppler shift.\<close>

definition doppler :: "P13Satellite \<Rightarrow> real \<Rightarrow> bool \<Rightarrow> real" where
  "doppler sat p_dfreqMHz p_bodir =
     (let l_ddopplershift = - p_dfreqMHz * cp_dRR sat / 299792
      in if p_bodir then p_dfreqMHz - l_ddopplershift else p_dfreqMHz + l_ddopplershift)"

subsection \<open>Class P13Sun\<close>

record P13Sun =
  c_vecSUN :: Vec3
  c_vecH :: Vec3

definition sun_predict :: "P13DateTime \<Rightarrow> P13Sun" where
  "sun_predict p_dt =
     (let l_dT = real_of_int (c_lDN p_dt - fnday (trunc_cast g_scdYG) 1 0) + c_dTN p_dt;
          l_dGHAE = radians g_scdG0 + l_dT * g_scdWE;
          l_dMRSE = radians g_scdG0 + l_dT * g_scdWW + pi;
          l_dMASE = radians (g_scdMAS0 + l_dT * g_scdMASD);
          l_dTAS = l_dMRSE + g_scdEQC1 * sin l_dMASE + g_scdEQC2 * sin (2 * l_dMASE);
          SUN0 = cos l_dTAS;
          SUN1 = sin l_dTAS * g_scdCNS;
          SUN2 = sin l_dTAS * g_scdSNS;
          l_dC = cos (- l_dGHAE);
          l_dS = sin (- l_dGHAE)
      in \<lparr>c_vecSUN = (SUN0, SUN1, SUN2),
          c_vecH = (SUN0 * l_dC - SUN1 * l_dS, SUN0 * l_dS + SUN1 * l_dC, SUN2)\<rparr>)"

definition sun_latlon :: "P13Sun \<Rightarrow> real \<times> real" where
  "sun_latlon sun =
     (case c_vecH sun of (H0, H1, H2) \<Rightarrow> (degrees (arcsin H2), degrees (atan2 H1 H0)))"





subsection \<open>Calendar dates\<close>

text \<open>
  The dates of the Gregorian calendar, and the range 1900 Mar 01 to 2100 Feb 28 that the
  comment of \<open>fndate\<close> gives as valid.
\<close>

definition leap_year :: "int \<Rightarrow> bool" where
  "leap_year y \<longleftrightarrow> y mod 4 = 0 \<and> (y mod 100 \<noteq> 0 \<or> y mod 400 = 0)"

definition days_in_month :: "int \<Rightarrow> int \<Rightarrow> int" where
  "days_in_month y m =
     (if m = 2 then (if leap_year y then 29 else 28)
      else if m = 4 \<or> m = 6 \<or> m = 9 \<or> m = 11 then 30 else 31)"

definition valid_calendar_date :: "int \<Rightarrow> int \<Rightarrow> int \<Rightarrow> bool" where
  "valid_calendar_date y m d \<longleftrightarrow> 1 \<le> m \<and> m \<le> 12 \<and> 1 \<le> d \<and> d \<le> days_in_month y m"

definition in_fnday_range :: "int \<Rightarrow> int \<Rightarrow> int \<Rightarrow> bool" where
  "in_fnday_range y m d \<longleftrightarrow>
     (1900 < y \<or> (y = 1900 \<and> 3 \<le> m)) \<and> (y < 2100 \<or> (y = 2100 \<and> (m < 2 \<or> (m = 2 \<and> d \<le> 28))))"

text \<open>
  The day-number in integer arithmetic, for a year that starts with March: \<open>M\<close> runs
  from 3 to 14, and January and February belong to the year before.
\<close>

definition daynum :: "int \<Rightarrow> int \<Rightarrow> int \<Rightarrow> int" where
  "daynum Y M D = (1461 * Y) div 4 + (153 * (M + 1)) div 5 + D"

subsection \<open>Notions for the statements\<close>









section \<open>Properties\<close>

subsection \<open>Truncation\<close>

lemma trunc_YM: "0 \<le> y \<Longrightarrow> trunc_cast (real_of_int y * g_scdYM) = (1461 * y) div 4"
proof -
  assume h: "0 \<le> y"
  have "real_of_int y * g_scdYM = real_of_int (1461 * y) / real_of_int 4"
    by (simp add: g_scdYM_def)
  then have "\<lfloor>real_of_int y * g_scdYM\<rfloor> = (1461 * y) div 4"
    by (simp only: floor_divide_of_int_eq)
  moreover have "0 \<le> real_of_int y * g_scdYM" using h by (simp add: g_scdYM_def)
  ultimately show ?thesis by (simp add: trunc_cast_def)
qed

lemma trunc_306: "0 \<le> m \<Longrightarrow> trunc_cast (real_of_int m * 30.6) = (153 * m) div 5"
proof -
  assume h: "0 \<le> m"
  have "real_of_int m * 30.6 = real_of_int (153 * m) / real_of_int 5"
    by simp
  then have "\<lfloor>real_of_int m * 30.6\<rfloor> = (153 * m) div 5"
    by (simp only: floor_divide_of_int_eq)
  moreover have "0 \<le> real_of_int m * 30.6" using h by simp
  ultimately show ?thesis by (simp add: trunc_cast_def)
qed

lemma trunc_year: "123 \<le> n \<Longrightarrow> trunc_cast ((real_of_int n - 122.1) / g_scdYM) = (20 * n - 2442) div 7305"
proof -
  assume h: "123 \<le> n"
  have "(real_of_int n - 122.1) / g_scdYM = real_of_int (20 * n - 2442) / real_of_int 7305"
    by (simp add: g_scdYM_def field_simps)
  then have "\<lfloor>(real_of_int n - 122.1) / g_scdYM\<rfloor> = (20 * n - 2442) div 7305"
    by (simp only: floor_divide_of_int_eq)
  moreover have "0 \<le> (real_of_int n - 122.1) / g_scdYM" using h by (simp add: g_scdYM_def)
  ultimately show ?thesis by (simp add: trunc_cast_def)
qed

lemma trunc_month: "0 \<le> n \<Longrightarrow> trunc_cast (real_of_int n / 30.61) = (100 * n) div 3061"
proof -
  assume h: "0 \<le> n"
  have "real_of_int n / 30.61 = real_of_int (100 * n) / real_of_int 3061"
    by (simp add: field_simps)
  then have "\<lfloor>real_of_int n / 30.61\<rfloor> = (100 * n) div 3061"
    by (simp only: floor_divide_of_int_eq)
  moreover have "0 \<le> real_of_int n / 30.61" using h by simp
  ultimately show ?thesis by (simp add: trunc_cast_def)
qed



lemma trunc_cast_frac:
  assumes "0 \<le> a" "0 < b"
  shows "trunc_cast (real_of_int a / real_of_int b) = a div b"
proof -
  have "0 \<le> real_of_int a / real_of_int b" using assms by simp
  then show ?thesis by (simp only: trunc_cast_def floor_divide_of_int_eq if_True)
qed

lemma fnday_late:
  assumes "0 \<le> y" "3 \<le> m"
  shows "fnday y m d = daynum y m d - 428"
proof -
  have e: "real_of_int (m + 1) * 30.6 = real_of_int (153 * (m + 1)) / real_of_int 5" by simp
  have "trunc_cast (real_of_int (m + 1) * 30.6) = (153 * (m + 1)) div 5"
    unfolding e by (rule trunc_cast_frac) (use assms in simp_all)
  then show ?thesis using assms
    by (simp add: fnday_def daynum_def trunc_YM)
qed

lemma fnday_early:
  assumes "1 \<le> y" "0 \<le> m" "m < 3"
  shows "fnday y m d = daynum (y - 1) (m + 12) d - 428"
proof -
  have e: "real_of_int (m + 12 + 1) * 30.6 = real_of_int (153 * (m + 12 + 1)) / real_of_int 5"
    by simp
  have "trunc_cast (real_of_int (m + 12 + 1) * 30.6) = (153 * (m + 12 + 1)) div 5"
    unfolding e by (rule trunc_cast_frac) (use assms in simp_all)
  moreover have "trunc_cast (real_of_int (y - 1) * g_scdYM) = (1461 * (y - 1)) div 4"
    using assms by (intro trunc_YM) simp
  ultimately show ?thesis using assms
    by (simp add: fnday_def daynum_def)
qed

lemma year_back:
  fixes Y r :: int
  assumes "123 \<le> r" "r \<le> 488" "r = 488 \<longrightarrow> Y mod 4 = 3"
  shows "(20 * ((1461 * Y) div 4 + r) - 2442) div 7305 = Y"
proof -
  define q where "q = Y div 4"
  define k where "k = Y mod 4"
  have Y: "Y = 4 * q + k" and k: "0 \<le> k" "k < 4" by (simp_all add: q_def k_def)
  have d: "(1461 * Y) div 4 = 1461 * q + (1461 * k) div 4"
    unfolding Y by (simp add: algebra_simps)
  from k have "k = 0 \<or> k = 1 \<or> k = 2 \<or> k = 3" by arith
  then have "7305 * Y \<le> 20 * ((1461 * Y) div 4 + r) - 2442
      \<and> 20 * ((1461 * Y) div 4 + r) - 2442 < 7305 * Y + 7305"
    unfolding d using assms unfolding k_def [symmetric] Y by auto
  then show ?thesis
    by (intro int_div_pos_eq [where r = "20 * ((1461 * Y) div 4 + r) - 2442 - 7305 * Y"]) simp_all
qed

lemma month_back:
  fixes M D :: int
  assumes "3 \<le> M" "M \<le> 14" "1 \<le> D" "D \<le> 31" "M \<in> {4, 6, 9, 11} \<longrightarrow> D \<le> 30" "M = 14 \<longrightarrow> D \<le> 29"
  shows "(100 * ((153 * (M + 1)) div 5 + D)) div 3061 = M + 1"
proof -
  from assms(1,2) have "M = 3 \<or> M = 4 \<or> M = 5 \<or> M = 6 \<or> M = 7 \<or> M = 8 \<or> M = 9 \<or> M = 10
      \<or> M = 11 \<or> M = 12 \<or> M = 13 \<or> M = 14" by arith
  then show ?thesis using assms(3-) by (elim disjE) simp_all
qed


subsection \<open>Day-numbers and dates\<close>

lemma fndate_daynum:
  assumes "0 \<le> Y" "3 \<le> M" "M \<le> 14" "1 \<le> D" "D \<le> 31"
    "M \<in> {4, 6, 9, 11} \<longrightarrow> D \<le> 30" "M = 14 \<longrightarrow> D \<le> 29" "M = 14 \<and> D = 29 \<longrightarrow> Y mod 4 = 3"
  shows "fndate (daynum Y M D - 428) = (if M > 12 then (Y + 1, M - 12, D) else (Y, M, D))"
proof -
  define r where "r = (153 * (M + 1)) div 5 + D"
  have n: "daynum Y M D = (1461 * Y) div 4 + r" by (simp add: daynum_def r_def)
  from assms(2,3) have M: "M = 3 \<or> M = 4 \<or> M = 5 \<or> M = 6 \<or> M = 7 \<or> M = 8 \<or> M = 9 \<or> M = 10
      \<or> M = 11 \<or> M = 12 \<or> M = 13 \<or> M = 14" by arith
  have r: "123 \<le> r" "r \<le> 488" "r = 488 \<longrightarrow> Y mod 4 = 3"
    using M assms(4-) unfolding r_def by (elim disjE; simp)+
  have q: "0 \<le> (1461 * Y) div 4" using assms(1) by (simp add: pos_imp_zdiv_nonneg_iff)
  have "trunc_cast ((real_of_int ((1461 * Y) div 4 + r) - 122.1) / g_scdYM)
      = (20 * ((1461 * Y) div 4 + r) - 2442) div 7305"
    by (rule trunc_year) (use r q in linarith)
  then have y: "trunc_cast ((real_of_int (daynum Y M D) - 122.1) / g_scdYM) = Y"
    unfolding n using r by (simp only: year_back)
  have "trunc_cast (real_of_int r / 30.61) = (100 * r) div 3061"
    by (rule trunc_month) (use r in linarith)
  then have m: "trunc_cast (real_of_int r / 30.61) = M + 1"
    unfolding r_def using assms(2-7) by (simp only: month_back)
  have e: "real_of_int (M + 1) * 30.6 = real_of_int (153 * (M + 1)) / real_of_int 5" by simp
  have c: "trunc_cast (real_of_int (M + 1) * 30.6) = (153 * (M + 1)) div 5"
    unfolding e by (rule trunc_cast_frac) (use assms in simp_all)
  have "fndate (daynum Y M D - 428) =
      (let idt1 = daynum Y M D;
          iy = trunc_cast ((real_of_int idt1 - 122.1) / g_scdYM);
          idt2 = idt1 - trunc_cast (real_of_int iy * g_scdYM);
          im = trunc_cast (real_of_int idt2 / 30.61);
          idt3 = idt2 - trunc_cast (real_of_int im * 30.6);
          im1 = im - 1
      in if im1 > 12 then (iy + 1, im1 - 12, idt3) else (iy, im1, idt3))"
    by (simp add: fndate_def)
  also have "\<dots> = (if M > 12 then (Y + 1, M - 12, D) else (Y, M, D))"
    unfolding Let_def y unfolding trunc_YM [OF assms(1)] n
    apply (simp only: add_diff_cancel_left' m c)
    apply (simp add: r_def)
    done
  finally show ?thesis .
qed

lemma fndate_fnday:
  assumes "valid_calendar_date y m d" "in_fnday_range y m d"
  shows "fndate (fnday y m d) = (y, m, d)"
proof (cases "m < 3")
  case True
  with assms have b: "1 \<le> y" "0 \<le> m" "1 \<le> m" "1 \<le> d" "d \<le> 31"
    by (auto simp: valid_calendar_date_def in_fnday_range_def days_in_month_def split: if_splits)
  have l: "m + 12 = 14 \<and> d = 29 \<longrightarrow> (y - 1) mod 4 = 3"
  proof
    assume "m + 12 = 14 \<and> d = 29"
    with assms(1) have "leap_year y"
      by (auto simp: valid_calendar_date_def days_in_month_def split: if_splits)
    then have "y mod 4 = 0" by (simp add: leap_year_def)
    then show "(y - 1) mod 4 = 3" by presburger
  qed
  have f: "m + 12 = 14 \<longrightarrow> d \<le> 29"
    using assms True
    by (auto simp: valid_calendar_date_def days_in_month_def split: if_splits)
  have "fndate (fnday y m d) = fndate (daynum (y - 1) (m + 12) d - 428)"
    using b True by (simp add: fnday_early)
  also have "\<dots> = (if m + 12 > 12 then (y - 1 + 1, m + 12 - 12, d) else (y - 1, m + 12, d))"
    using b True l f by (intro fndate_daynum) auto
  finally show ?thesis using b by simp
next
  case False
  with assms have b: "0 \<le> y" "3 \<le> m" "m \<le> 12" "1 \<le> d" "d \<le> 31" "m \<in> {4, 6, 9, 11} \<longrightarrow> d \<le> 30"
    by (auto simp: valid_calendar_date_def in_fnday_range_def days_in_month_def split: if_splits)
  have "fndate (fnday y m d) = fndate (daynum y m d - 428)"
    using b by (simp add: fnday_late)
  also have "\<dots> = (if m > 12 then (y + 1, m - 12, d) else (y, m, d))"
    using b by (intro fndate_daynum) auto
  finally show ?thesis using b by simp
qed





subsection \<open>Map projection\<close>

lemma trunc_cast_half: "trunc_cast (real_of_int W / 2) = W sdiv 2"
proof (cases "0 \<le> W")
  case True
  have "\<lfloor>real_of_int W / real_of_int 2\<rfloor> = W div 2" by (rule floor_divide_of_int_eq)
  with True show ?thesis by (simp add: trunc_cast_def signed_divide_int_def sgn_if)
next
  case False
  have "\<lceil>real_of_int W / real_of_int 2\<rceil> = - \<lfloor>real_of_int (- W) / real_of_int 2\<rfloor>"
    by (simp add: ceiling_def)
  also have "\<dots> = - ((- W) div 2)" by (simp only: floor_divide_of_int_eq)
  finally show ?thesis using False by (simp add: trunc_cast_def signed_divide_int_def sgn_if)
qed

text \<open>
  C10. For every map width \<open>W\<close> and height \<open>H\<close>, \<open>latlon2xy\<close> maps latitude 0, longitude 0
  to the pixel \<open>(W / 2, H / 2)\<close>, the quotients being those of C, rounded toward zero, and
  latitude 90, longitude -180 to the pixel \<open>(0, 0)\<close>; the pixel is
  \<open>x = (180 + lon) / 360 * width\<close> and \<open>y = (90 - lat) / 180 * height\<close>, cast to \<open>int\<close>.
\<close>

theorem latlon2xy_centre_and_corner:
  "latlon2xy 0 0 W H = (W sdiv 2, H sdiv 2)
   \<and> latlon2xy 90 (- 180) W H = (0, 0)
   \<and> latlon2xy lat lon W H =
       (trunc_cast ((180 + lon) / 360 * real_of_int W), trunc_cast ((90 - lat) / 180 * real_of_int H))"
  by (simp add: latlon2xy_def trunc_cast_half) (simp add: trunc_cast_def)

subsection \<open>Doppler shift\<close>

text \<open>
  C6. For every frequency \<open>f\<close> and cached range rate, the shift is \<open>- f * r / 299792\<close>; the
  TX result is \<open>f\<close> minus the shift and the RX result is \<open>f\<close> plus the shift, so the two
  results lie on opposite sides of \<open>f\<close> at the same distance (the product of the two
  offsets is minus the square of the shift), and both are \<open>f\<close> when the range rate is 0.
\<close>

theorem doppler_symmetry:
  "doppler sat f True = f - (- f * cp_dRR sat / 299792)
   \<and> doppler sat f False = f + (- f * cp_dRR sat / 299792)
   \<and> doppler sat f True - f = - (doppler sat f False - f)
   \<and> (doppler sat f True - f) * (doppler sat f False - f) = - (f * cp_dRR sat / 299792)\<^sup>2
   \<and> doppler (sat\<lparr>cp_dRR := 0\<rparr>) f b = f"
  by (simp add: doppler_def power2_eq_square)

subsection \<open>The Kepler loop\<close>

lemma kepler_loop_circular: "kepler_loop 0 M M = Some (M, cos M, sin M, 1)"
  by (subst kepler_loop.simps) (simp add: kepler_body_def)

text \<open>
  C7. For eccentricity 0 and any mean anomaly \<open>M\<close>, the loop started at \<open>M\<close> returns after
  the first pass with the eccentric anomaly \<open>M\<close>: the first correction is zero.
\<close>

theorem kepler_circular: "kepler_loop 0 M M = Some (M, cos M, sin M, 1)"
  by (rule kepler_loop_circular)

subsection \<open>Adding days to a time\<close>


lemma trunc_cast_neg_eq:
  assumes "x < 0" "real_of_int n - 1 < x" "x \<le> real_of_int n"
  shows "trunc_cast x = n"
proof -
  have "\<lceil>x\<rceil> = n" using assms(2,3) by linarith
  with assms(1) show ?thesis by (simp add: trunc_cast_def)
qed

lemma fnday_2024_1_1: "fnday 2024 1 1 = 738901"
  by (simp add: fnday_def g_scdYM_def trunc_cast_def)

lemma fndate_738901: "fndate 738901 = (2024, 1, 1)"
proof -
  have "valid_calendar_date 2024 1 1" "in_fnday_range 2024 1 1"
    by (simp_all add: valid_calendar_date_def days_in_month_def in_fnday_range_def)
  then have "fndate (fnday 2024 1 1) = (2024, 1, 1)" by (rule fndate_fnday)
  then show ?thesis by (simp only: fnday_2024_1_1)
qed

text \<open>
  \<open>add\<close> keeps the instant, and where the new fraction of the day is not negative
  it is brought back into \<open>[0, 1)\<close>, the whole days going to the day-number. The cast
  truncates toward zero, so a negative fraction stays negative.
\<close>

lemma add_instant:
  "real_of_int (c_lDN (add dt x)) + c_dTN (add dt x) = real_of_int (c_lDN dt) + c_dTN dt + x"
  by (simp add: add_def Let_def)

lemma add_fraction_nonneg:
  assumes "0 \<le> c_dTN dt + x"
  shows "0 \<le> c_dTN (add dt x) \<and> c_dTN (add dt x) < 1
    \<and> c_lDN (add dt x) = c_lDN dt + \<lfloor>c_dTN dt + x\<rfloor>"
  using assms by (simp add: add_def Let_def trunc_cast_def) linarith

lemma add_fraction_neg:
  assumes "c_dTN dt + x < 0"
  shows "- 1 < c_dTN (add dt x) \<and> c_dTN (add dt x) \<le> 0
    \<and> c_lDN (add dt x) = c_lDN dt + \<lceil>c_dTN dt + x\<rceil>"
  using assms by (simp add: add_def Let_def trunc_cast_def) linarith

lemma fmod_range:
  assumes "0 \<le> x" "0 < y"
  shows "0 \<le> fmod x y \<and> fmod x y < y"
proof -
  have q: "0 \<le> x / y" using assms by simp
  then have t: "trunc_cast (x / y) = \<lfloor>x / y\<rfloor>" by (simp add: trunc_cast_def)
  have "real_of_int \<lfloor>x / y\<rfloor> \<le> x / y" "x / y < real_of_int \<lfloor>x / y\<rfloor> + 1" by linarith+
  then have "real_of_int \<lfloor>x / y\<rfloor> * y \<le> x" "x < (real_of_int \<lfloor>x / y\<rfloor> + 1) * y"
    using assms(2) by (simp_all only: pos_le_divide_eq pos_divide_less_eq)
  then show ?thesis unfolding fmod_def t by (simp add: algebra_simps)
qed

lemma roundup_fraction:
  assumes "0 \<le> c_dTN dt" "0 < t"
  shows "0 \<le> c_dTN (roundup dt t) \<and> c_dTN (roundup dt t) < 1"
proof -
  have "0 \<le> c_dTN dt + (t - fmod (c_dTN dt) t)" using fmod_range [OF assms] assms by linarith
  then show ?thesis by (simp add: roundup_def Let_def trunc_cast_def) linarith
qed

text \<open>
  C3, at 2024-01-01 06:00:00 and an offset of minus half a day: \<open>add\<close> leaves the
  day-number as it is and the fraction of the day at \<open>- 1 / 4\<close>, outside \<open>[0, 1)\<close>, and
  \<open>gettime\<close> then reports the hour \<open>- 6\<close> of 2024-01-01. The specification asks for
  the fraction \<open>3 / 4\<close> of the day before.
\<close>

theorem add_negative_offset:
  "add (settime 2024 1 1 6 0 0) (- (1 / 2)) = \<lparr>c_lDN = 738901, c_dTN = - (1 / 4)\<rparr>
   \<and> gettime (add (settime 2024 1 1 6 0 0) (- (1 / 2))) = (2024, 1, 1, - 6, 0, 0)"
proof -
  have t: "trunc_cast (- (1 / 4)) = 0" by (rule trunc_cast_neg_eq) simp_all
  have a: "add (settime 2024 1 1 6 0 0) (- (1 / 2)) = \<lparr>c_lDN = 738901, c_dTN = - (1 / 4)\<rparr>"
    by (simp add: add_def settime_def fnday_2024_1_1 t)
  have h: "trunc_cast (- 6) = - 6" by (rule trunc_cast_neg_eq) simp_all
  have z: "trunc_cast 0 = 0" by (simp add: trunc_cast_def)
  have "gettime \<lparr>c_lDN = 738901, c_dTN = - (1 / 4)\<rparr> = (2024, 1, 1, - 6, 0, 0)"
    by (simp add: gettime_def fndate_738901 h z)
  with a show ?thesis by simp
qed

subsection \<open>Mean anomaly and orbit number\<close>

lemma fnday_2014_1_0: "fnday 2014 1 0 = 735248"
  by (simp add: fnday_def g_scdYM_def trunc_cast_def)

lemma fnday_2013_12_31: "fnday 2013 12 31 = 735248"
  by (simp add: fnday_def g_scdYM_def trunc_cast_def)

text \<open>
  Stripping the whole revolutions brings a mean anomaly that is not negative into
  \<open>[0, 2 * pi)\<close>, and a negative one into \<open>(- 2 * pi, 0]\<close>.
\<close>

lemma mean_anomaly_M_after_epoch:
  assumes "0 \<le> mean_anomaly_raw sat dt"
  shows "0 \<le> mean_anomaly_M sat dt \<and> mean_anomaly_M sat dt < 2 * pi"
proof -
  define r where "r = mean_anomaly_raw sat dt"
  have q: "0 \<le> r / (2 * pi)" using assms by (simp add: r_def)
  have "real_of_int \<lfloor>r / (2 * pi)\<rfloor> \<le> r / (2 * pi)" "r / (2 * pi) < real_of_int \<lfloor>r / (2 * pi)\<rfloor> + 1"
    by linarith+
  then have "real_of_int \<lfloor>r / (2 * pi)\<rfloor> * (2 * pi) \<le> r" "r < (real_of_int \<lfloor>r / (2 * pi)\<rfloor> + 1) * (2 * pi)"
    by (simp_all only: pos_le_divide_eq pos_divide_less_eq mult_pos_pos zero_less_numeral pi_gt_zero)
  then show ?thesis using q
    by (simp add: mean_anomaly_M_def whole_revs_DR_def r_def [symmetric] trunc_cast_def algebra_simps)
qed

lemma mean_anomaly_M_before_epoch:
  assumes "mean_anomaly_raw sat dt < 0"
  shows "- (2 * pi) < mean_anomaly_M sat dt \<and> mean_anomaly_M sat dt \<le> 0"
proof -
  define r where "r = mean_anomaly_raw sat dt"
  have q: "r / (2 * pi) < 0" using assms by (simp add: r_def divide_neg_pos)
  have "real_of_int \<lceil>r / (2 * pi)\<rceil> - 1 < r / (2 * pi)" "r / (2 * pi) \<le> real_of_int \<lceil>r / (2 * pi)\<rceil>"
    by linarith+
  then have "(real_of_int \<lceil>r / (2 * pi)\<rceil> - 1) * (2 * pi) < r" "r \<le> real_of_int \<lceil>r / (2 * pi)\<rceil> * (2 * pi)"
    by (simp_all only: pos_less_divide_eq pos_divide_le_eq mult_pos_pos zero_less_numeral pi_gt_zero)
  then show ?thesis using q
    by (simp add: mean_anomaly_M_def whole_revs_DR_def r_def [symmetric] trunc_cast_def algebra_simps)
qed

text \<open>
  C4, for an element set with epoch 2014 day 1.0, mean anomaly 0, one revolution per day,
  no decay and revolution number 100, at 2013-12-31 18:00:00, a quarter of a day before
  the epoch: the mean anomaly is \<open>- pi / 2\<close>, the cast strips 0 revolutions, and the
  stripped mean anomaly stays \<open>- pi / 2\<close>, below the range \<open>0..2PI\<close> of the comment, with
  the orbit number 100. The specification asks for \<open>3 * pi / 2\<close> and the orbit number 99.
\<close>

theorem mean_anomaly_before_epoch_negative:
  "mean_anomaly_raw (tle zero_satellite ''SAT'' 1 14 1 0 0 0 0 0 0 1 100) (settime 2013 12 31 18 0 0)
     = - (pi / 2)
   \<and> whole_revs_DR (tle zero_satellite ''SAT'' 1 14 1 0 0 0 0 0 0 1 100) (settime 2013 12 31 18 0 0) = 0
   \<and> mean_anomaly_M (tle zero_satellite ''SAT'' 1 14 1 0 0 0 0 0 0 1 100) (settime 2013 12 31 18 0 0)
     = - (pi / 2)
   \<and> orbit_number_RN (tle zero_satellite ''SAT'' 1 14 1 0 0 0 0 0 0 1 100) (settime 2013 12 31 18 0 0)
     = 100"
proof -
  define sat where "sat = tle zero_satellite ''SAT'' 1 14 1 0 0 0 0 0 0 1 100"
  define dt where "dt = settime 2013 12 31 18 0 0"
  have one: "trunc_cast 1 = 1" by (simp add: trunc_cast_def)
  have f: "cp_lDE sat = 735249" "cp_dTE sat = 0" "cp_dMA sat = 0" "cp_dMM sat = 2 * pi"
    "cp_dDC sat = 0" "cp_dRV sat = 100"
    by (simp_all add: sat_def tle_def Let_def fnday_2014_1_0 one radians_def)
  have d: "c_lDN dt = 735248" "c_dTN dt = 3 / 4"
    by (simp_all add: dt_def settime_def fnday_2013_12_31)
  have T: "elapsed_T sat dt = - (1 / 4)" by (simp add: elapsed_T_def f d)
  have r: "mean_anomaly_raw sat dt = - (pi / 2)"
    by (simp add: mean_anomaly_raw_def drag_DT_def T f)
  have "trunc_cast (- (1 / 4)) = 0" by (rule trunc_cast_neg_eq) simp_all
  then have w: "whole_revs_DR sat dt = 0" by (simp add: whole_revs_DR_def r)
  show ?thesis
    unfolding sat_def [symmetric] dt_def [symmetric]
    by (simp add: r w mean_anomaly_M_def orbit_number_RN_def f)
qed

subsection \<open>Footprint\<close>







subsection \<open>Look angles\<close>













subsection \<open>Orbital radius and position\<close>


















subsection \<open>Termination of the Kepler loop\<close>
























end
